theory Spec2Isabelle
  imports Complex_Main "HOL-Library.Sublist"
begin

section \<open>Request values\<close>

text \<open>
  The request body of \<^verbatim>\<open>POST /api/documents\<close> is loosely typed JSON. The two fields
  whose JavaScript truthiness decides a branch (\<^verbatim>\<open>folio\<close> and \<^verbatim>\<open>total\<close>) are kept as
  JavaScript values. Numbers are whole numbers: quantities are an INTEGER column and
  amounts are whole pesos, on which the double arithmetic of the source is exact.
\<close>

datatype jsval = JUndefined | JNull | JBool bool | JNum int | JStr string

fun truthy :: "jsval \<Rightarrow> bool" where
  "truthy JUndefined = False"
| "truthy JNull = False"
| "truthy (JBool b) = b"
| "truthy (JNum n) = (n \<noteq> 0)"
| "truthy (JStr s) = (s \<noteq> [])"

text \<open>\<^verbatim>\<open>a || b\<close> on JavaScript values.\<close>

definition js_or :: "jsval \<Rightarrow> jsval \<Rightarrow> jsval" where
  "js_or a b = (if truthy a then a else b)"

text \<open>
  \<^verbatim>\<open>a || b\<close> on an optional text field: an absent, null or empty text is falsy.
  \<^verbatim>\<open>a || null\<close> on an optional integer field: absent, null and 0 are falsy.
\<close>

definition text_or :: "string option \<Rightarrow> string option \<Rightarrow> string option" where
  "text_or a b = (case a of None \<Rightarrow> b | Some s \<Rightarrow> if s = [] then b else Some s)"

definition int_or_null :: "int option \<Rightarrow> int option" where
  "int_or_null a = (case a of None \<Rightarrow> None | Some n \<Rightarrow> if n = 0 then None else Some n)"

text \<open>\<^verbatim>\<open>Math.round\<close>: the nearest integer, a half rounded towards plus infinity.\<close>

definition Math_round :: "rat \<Rightarrow> int" where
  "Math_round x = \<lfloor>x + 1 / 2\<rfloor>"

record item =
  it_product_id :: "int option"
  it_name :: "string option"
  it_description :: "string option"
  it_quantity :: int
  it_price :: int

record doc_request =
  rq_type :: "string option"
  rq_company_id :: "int option"
  rq_date :: "string option"
  rq_expiration_date :: "string option"
  rq_items :: "item list option"
  rq_notes :: "string option"
  rq_payment_terms :: "string option"
  rq_delivery_time :: "string option"
  rq_warranty :: "string option"
  rq_reference :: "string option"
  rq_parent_id :: "int option"
  rq_status :: "string option"
  rq_driver :: "string option"
  rq_plate :: "string option"
  rq_dispatch_type :: "string option"
  rq_file_url :: "string option"
  rq_total :: jsval
  rq_folio :: jsval

section \<open>The relational store\<close>

text \<open>
  The tables of \<^verbatim>\<open>initDB\<close> that the document routes touch. A nullable column is an
  \<open>option\<close>. Of \<^verbatim>\<open>companies\<close> only the columns the routes read are kept. A table is
  the list of its rows in insertion order.
\<close>

record company =
  c_id :: int
  c_name :: "string option"
  c_rut :: "string option"
  c_giro :: "string option"
  c_address :: "string option"
  c_city :: "string option"

record document =
  d_id :: int
  d_type :: "string option"
  d_folio :: "int option"
  d_company_id :: "int option"
  d_date :: "string option"
  d_expiration_date :: "string option"
  d_status :: "string option"
  d_neto :: int
  d_tax :: int
  d_total :: "int option"
  d_notes :: "string option"
  d_payment_terms :: "string option"
  d_delivery_time :: "string option"
  d_warranty :: "string option"
  d_reference :: "string option"
  d_parent_id :: "int option"
  d_driver :: "string option"
  d_plate :: "string option"
  d_dispatch_type :: "string option"
  d_file_url :: "string option"

record document_item =
  di_id :: int
  di_document_id :: int
  di_product_id :: "int option"
  di_name :: "string option"
  di_description :: "string option"
  di_quantity :: int
  di_price :: int
  di_total :: int

record db =
  companies :: "company list"
  documents :: "document list"
  document_items :: "document_item list"
  documents_id_seq :: int
  document_items_id_seq :: int

text \<open>
  What the store does with a value is not in the repository; it is a parameter of the
  model: how it reads a text as an INTEGER and as a DECIMAL, and which rows the column
  types of \<^verbatim>\<open>documents\<close> and \<^verbatim>\<open>document_items\<close> accept (lengths, ranges).
\<close>

record store_rules =
  int4in :: "string \<Rightarrow> int option"
  numeric_in :: "string \<Rightarrow> int option"
  documents_check :: "document \<Rightarrow> bool"
  document_items_check :: "document_item \<Rightarrow> bool"

datatype pg_error =
    invalid_text_representation
  | numeric_value_out_of_range
  | foreign_key_violation
  | check_violation
  | invalid_escape_sequence

text \<open>A query parameter bound to an INTEGER and to a DECIMAL column.\<close>

definition bind_int4 :: "store_rules \<Rightarrow> jsval \<Rightarrow> pg_error + int option" where
  "bind_int4 R v =
     (case v of
        JUndefined \<Rightarrow> Inr None
      | JNull \<Rightarrow> Inr None
      | JNum n \<Rightarrow> Inr (Some n)
      | JBool b \<Rightarrow>
          (case int4in R (if b then ''true'' else ''false'') of
             None \<Rightarrow> Inl invalid_text_representation
           | Some n \<Rightarrow> Inr (Some n))
      | JStr s \<Rightarrow>
          (case int4in R s of
             None \<Rightarrow> Inl invalid_text_representation
           | Some n \<Rightarrow> Inr (Some n)))"

definition bind_numeric :: "store_rules \<Rightarrow> jsval \<Rightarrow> pg_error + int option" where
  "bind_numeric R v =
     (case v of
        JUndefined \<Rightarrow> Inr None
      | JNull \<Rightarrow> Inr None
      | JNum n \<Rightarrow> Inr (Some n)
      | JBool b \<Rightarrow>
          (case numeric_in R (if b then ''true'' else ''false'') of
             None \<Rightarrow> Inl invalid_text_representation
           | Some n \<Rightarrow> Inr (Some n))
      | JStr s \<Rightarrow>
          (case numeric_in R s of
             None \<Rightarrow> Inl invalid_text_representation
           | Some n \<Rightarrow> Inr (Some n)))"

text \<open>
  \<^verbatim>\<open>BEGIN\<close>, \<^verbatim>\<open>COMMIT\<close> and \<^verbatim>\<open>ROLLBACK\<close> on the one client of a request: the
  transaction works on \<open>cur\<close>; \<open>saved\<close> is the state at \<^verbatim>\<open>BEGIN\<close>. A rollback
  restores the tables; the values a sequence has handed out stay handed out.
\<close>

record txn =
  cur :: db
  saved :: db

definition BEGIN :: "db \<Rightarrow> txn" where
  "BEGIN s = \<lparr>cur = s, saved = s\<rparr>"

definition COMMIT :: "txn \<Rightarrow> db" where
  "COMMIT t = cur t"

definition ROLLBACK :: "txn \<Rightarrow> db" where
  "ROLLBACK t =
     (saved t)\<lparr>documents_id_seq := documents_id_seq (cur t),
               document_items_id_seq := document_items_id_seq (cur t)\<rparr>"

text \<open>SQL comparison \<^verbatim>\<open>a = b\<close> in a WHERE clause: a NULL on either side never matches.\<close>

definition sql_eq :: "'a option \<Rightarrow> 'a option \<Rightarrow> bool" where
  "sql_eq a b = (case a of None \<Rightarrow> False | Some x \<Rightarrow> (case b of None \<Rightarrow> False | Some y \<Rightarrow> x = y))"

text \<open>The non-null folios of the documents of a type, in insertion order.\<close>

definition folios_of :: "db \<Rightarrow> string option \<Rightarrow> int list" where
  "folios_of s ty =
     List.map_filter d_folio (filter (\<lambda>d. sql_eq (d_type d) ty) (documents s))"

text \<open>The aggregate \<^verbatim>\<open>MAX\<close>: NULL over no rows.\<close>

definition sql_max :: "int list \<Rightarrow> int option" where
  "sql_max xs = (case xs of [] \<Rightarrow> None | x # ys \<Rightarrow> Some (fold max ys x))"

definition sql_coalesce :: "int option \<Rightarrow> int \<Rightarrow> int" where
  "sql_coalesce a b = (case a of None \<Rightarrow> b | Some x \<Rightarrow> x)"

definition sql_greatest :: "int \<Rightarrow> int \<Rightarrow> int" where
  "sql_greatest a b = max a b"

text \<open>
  \<^verbatim>\<open>SELECT GREATEST(COALESCE(MAX(folio), 0) + 1, 6060) as next_folio FROM documents
  WHERE type = $1\<close>. The sum is an INTEGER: beyond \<open>2147483647\<close> the query fails.
\<close>

definition select_next_folio :: "db \<Rightarrow> string option \<Rightarrow> pg_error + int" where
  "select_next_folio s ty =
     (let m = sql_coalesce (sql_max (folios_of s ty)) 0 in
      if m + 1 > 2147483647 then Inl numeric_value_out_of_range
      else Inr (sql_greatest (m + 1) 6060))"

text \<open>
  The query of the older variant of the route (the second source file):
  \<^verbatim>\<open>SELECT COALESCE(MAX(folio), 0) + 1 as next_folio FROM documents WHERE type = $1\<close>.
\<close>

definition select_next_folio_old :: "db \<Rightarrow> string option \<Rightarrow> pg_error + int" where
  "select_next_folio_old s ty =
     (let m = sql_coalesce (sql_max (folios_of s ty)) 0 in
      if m + 1 > 2147483647 then Inl numeric_value_out_of_range
      else Inr (m + 1))"

text \<open>
  \<^verbatim>\<open>INSERT INTO documents (...) VALUES (...) RETURNING *\<close>: the id comes from the
  sequence, \<^verbatim>\<open>company_id\<close> references \<^verbatim>\<open>companies(id)\<close> when it is not NULL, and the
  row has to pass the column checks.
\<close>

definition insert_document :: "store_rules \<Rightarrow> db \<Rightarrow> document \<Rightarrow> db \<times> (pg_error + document)" where
  "insert_document R s row =
     (let i = documents_id_seq s + 1;
          s1 = s\<lparr>documents_id_seq := i\<rparr>;
          r = row\<lparr>d_id := i\<rparr>
      in if \<not> (case d_company_id r of None \<Rightarrow> True | Some c \<Rightarrow> c \<in> set (map c_id (companies s)))
         then (s1, Inl foreign_key_violation)
         else if \<not> documents_check R r then (s1, Inl check_violation)
         else (s1\<lparr>documents := documents s1 @ [r]\<rparr>, Inr r))"

text \<open>\<^verbatim>\<open>INSERT INTO document_items (...) VALUES (...)\<close>.\<close>

definition insert_document_item :: "store_rules \<Rightarrow> db \<Rightarrow> document_item \<Rightarrow> db \<times> (pg_error + unit)" where
  "insert_document_item R s row =
     (let i = document_items_id_seq s + 1;
          s1 = s\<lparr>document_items_id_seq := i\<rparr>;
          r = row\<lparr>di_id := i\<rparr>
      in if \<not> document_items_check R r then (s1, Inl check_violation)
         else (s1\<lparr>document_items := document_items s1 @ [r]\<rparr>, Inr ()))"

section \<open>Document Writer: POST /api/documents\<close>

text \<open>
  A row of the reading routes: the document, the columns of its company the join
  attaches, and the items the second query attaches.
\<close>

record listed_document =
  l_document :: document
  l_company :: company
  l_items :: "document_item list"

text \<open>
  What a route answers: the created row, the listed rows, an acknowledgement, the
  rendered page (its fixed layout is not modelled, only the row it is filled from),
  status 404, or status 500 with the error.
\<close>

datatype response =
    DocumentCreated document
  | DocumentList "listed_document list"
  | Message string
  | Page listed_document
  | NotFound
  | ServerError pg_error

text \<open>
  Folio resolution: \<^verbatim>\<open>let nextFolio = req.body.folio; if (!nextFolio) { ... }\<close>.
\<close>

definition resolve_folio :: "db \<Rightarrow> doc_request \<Rightarrow> pg_error + jsval" where
  "resolve_folio s rq =
     (if \<not> truthy (rq_folio rq)
      then (case select_next_folio s (rq_type rq) of
              Inl e \<Rightarrow> Inl e
            | Inr n \<Rightarrow> Inr (JNum n))
      else Inr (rq_folio rq))"

text \<open>The loop \<^verbatim>\<open>items.forEach(item => { neto += item.quantity * item.price; })\<close>.\<close>

fun sum_items :: "item list \<Rightarrow> int \<Rightarrow> int" where
  "sum_items [] neto = neto"
| "sum_items (x # xs) neto = sum_items xs (neto + it_quantity x * it_price x)"

text \<open>Totals resolution: the triple (neto, tax, finalTotal).\<close>

definition resolve_totals :: "doc_request \<Rightarrow> int \<times> int \<times> jsval" where
  "resolve_totals rq =
     (let finalTotal = js_or (rq_total rq) (JNum 0) in
      case rq_items rq of
        None \<Rightarrow> (0, 0, finalTotal)
      | Some xs \<Rightarrow>
          if length xs > 0
          then (let neto = sum_items xs 0;
                    tax = Math_round (of_int neto * (19 / 100))
                in (neto, tax, JNum (neto + tax)))
          else (0, 0, finalTotal))"

text \<open>The row of one item; \<^verbatim>\<open>total\<close> is \<^verbatim>\<open>item.quantity * item.price\<close>.\<close>

definition item_row :: "int \<Rightarrow> item \<Rightarrow> document_item" where
  "item_row docId x =
     \<lparr>di_id = 0, di_document_id = docId, di_product_id = it_product_id x,
      di_name = it_name x, di_description = text_or (it_description x) (Some []),
      di_quantity = it_quantity x, di_price = it_price x,
      di_total = it_quantity x * it_price x\<rparr>"

text \<open>The loop \<^verbatim>\<open>for (const item of items) { await client.query(INSERT ...) }\<close>.\<close>

fun insert_items :: "store_rules \<Rightarrow> db \<Rightarrow> int \<Rightarrow> item list \<Rightarrow> db \<times> (pg_error + unit)" where
  "insert_items R s docId [] = (s, Inr ())"
| "insert_items R s docId (x # xs) =
     (case insert_document_item R s (item_row docId x) of
        (s1, Inl e) \<Rightarrow> (s1, Inl e)
      | (s1, Inr u) \<Rightarrow> insert_items R s1 docId xs)"

text \<open>The header row the route sends to the store.\<close>

definition header_row :: "doc_request \<Rightarrow> int option \<Rightarrow> int \<Rightarrow> int \<Rightarrow> int option \<Rightarrow> document" where
  "header_row rq folio neto tax finalTotal =
     \<lparr>d_id = 0, d_type = rq_type rq, d_folio = folio, d_company_id = rq_company_id rq,
      d_date = rq_date rq, d_expiration_date = text_or (rq_expiration_date rq) None,
      d_status = text_or (rq_status rq) (Some ''Emitida''),
      d_neto = neto, d_tax = tax, d_total = finalTotal,
      d_notes = rq_notes rq, d_payment_terms = rq_payment_terms rq,
      d_delivery_time = rq_delivery_time rq, d_warranty = rq_warranty rq,
      d_reference = text_or (rq_reference rq) (Some []),
      d_parent_id = int_or_null (rq_parent_id rq),
      d_driver = text_or (rq_driver rq) (Some []),
      d_plate = text_or (rq_plate rq) (Some []),
      d_dispatch_type = text_or (rq_dispatch_type rq) (Some []),
      d_file_url = text_or (rq_file_url rq) (Some [])\<rparr>"

text \<open>
  The body of the \<^verbatim>\<open>try\<close> block between \<^verbatim>\<open>BEGIN\<close> and \<^verbatim>\<open>COMMIT\<close>: the folio read,
  the totals, the header insert, the item inserts. The first failure ends it.
\<close>

definition create_document :: "store_rules \<Rightarrow> db \<Rightarrow> doc_request \<Rightarrow> db \<times> (pg_error + document)" where
  "create_document R s rq =
     (case resolve_folio s rq of
        Inl e \<Rightarrow> (s, Inl e)
      | Inr nextFolio \<Rightarrow>
          (case resolve_totals rq of
             (neto, tax, finalTotal) \<Rightarrow>
               (case bind_int4 R nextFolio of
                  Inl e \<Rightarrow> (s, Inl e)
                | Inr folio \<Rightarrow>
                    (case bind_numeric R finalTotal of
                       Inl e \<Rightarrow> (s, Inl e)
                     | Inr tot \<Rightarrow>
                         (case insert_document R s (header_row rq folio neto tax tot) of
                            (s1, Inl e) \<Rightarrow> (s1, Inl e)
                          | (s1, Inr doc) \<Rightarrow>
                              (case rq_items rq of
                                 None \<Rightarrow> (s1, Inr doc)
                               | Some xs \<Rightarrow>
                                   if length xs > 0
                                   then (case insert_items R s1 (d_id doc) xs of
                                           (s2, Inl e) \<Rightarrow> (s2, Inl e)
                                         | (s2, Inr u) \<Rightarrow> (s2, Inr doc))
                                   else (s1, Inr doc)))))))"

text \<open>
  The route: \<^verbatim>\<open>BEGIN\<close>, the body, then \<^verbatim>\<open>COMMIT\<close> and the created row, or in the
  \<^verbatim>\<open>catch\<close> block \<^verbatim>\<open>ROLLBACK\<close> and status 500 with the error.
\<close>

definition post_documents :: "store_rules \<Rightarrow> db \<Rightarrow> doc_request \<Rightarrow> db \<times> response" where
  "post_documents R s rq =
     (let t = BEGIN s in
      case create_document R (cur t) rq of
        (s1, Inl e) \<Rightarrow> (ROLLBACK (t\<lparr>cur := s1\<rparr>), ServerError e)
      | (s1, Inr doc) \<Rightarrow> (COMMIT (t\<lparr>cur := s1\<rparr>), DocumentCreated doc))"

section \<open>Document Reader: GET /api/documents\<close>

text \<open>
  \<^verbatim>\<open>ILIKE\<close> compares without regard to case: pattern and text are lowered first
  (ASCII letters), then matched as \<^verbatim>\<open>LIKE\<close> does. In a pattern \<^verbatim>\<open>%\<close> stands for any
  sequence of characters, \<^verbatim>\<open>_\<close> for any one character, and a backslash takes the
  next character literally; a pattern that ends in a lone backslash is an error.
\<close>

definition lower_char :: "char \<Rightarrow> char" where
  "lower_char c =
     (let n = (of_char c :: nat) in if 65 \<le> n \<and> n \<le> 90 then char_of (n + 32) else c)"

datatype like_token = AnySeq | AnyChar | Lit char

fun like_parse :: "string \<Rightarrow> like_token list option" where
  "like_parse [] = Some []"
| "like_parse (c # cs) =
     (if c = CHR ''%'' then map_option (Cons AnySeq) (like_parse cs)
      else if c = CHR ''_'' then map_option (Cons AnyChar) (like_parse cs)
      else if c = CHR 0x5C then
        (case cs of
           [] \<Rightarrow> None
         | e # rest \<Rightarrow> map_option (Cons (Lit e)) (like_parse rest))
      else map_option (Cons (Lit c)) (like_parse cs))"

fun like_match :: "like_token list \<Rightarrow> string \<Rightarrow> bool" where
  "like_match [] t = (t = [])"
| "like_match (AnySeq # p) [] = like_match p []"
| "like_match (AnySeq # p) (c # t) = (like_match p (c # t) \<or> like_match (AnySeq # p) t)"
| "like_match (AnyChar # p) [] = False"
| "like_match (AnyChar # p) (c # t) = like_match p t"
| "like_match (Lit a # p) [] = False"
| "like_match (Lit a # p) (c # t) = (a = c \<and> like_match p t)"

text \<open>\<^verbatim>\<open>x ILIKE pattern\<close> in a WHERE clause, the pattern parsed: a NULL never matches.\<close>

definition sql_ilike :: "string option \<Rightarrow> like_token list \<Rightarrow> bool" where
  "sql_ilike x p = (case x of None \<Rightarrow> False | Some t \<Rightarrow> like_match p (map lower_char t))"

text \<open>\<^verbatim>\<open>CAST(d.folio AS TEXT)\<close>: the decimal digits, a minus sign first when negative.\<close>

definition digit_char :: "int \<Rightarrow> char" where
  "digit_char r =
     (if r = 0 then CHR ''0'' else if r = 1 then CHR ''1'' else if r = 2 then CHR ''2''
      else if r = 3 then CHR ''3'' else if r = 4 then CHR ''4'' else if r = 5 then CHR ''5''
      else if r = 6 then CHR ''6'' else if r = 7 then CHR ''7'' else if r = 8 then CHR ''8''
      else CHR ''9'')"

function digits :: "int \<Rightarrow> string" where
  "digits n =
     (if n < 10 then [digit_char n]
      else digits (n div 10) @ [digit_char (n mod 10)])"
  by pat_completeness auto
termination
  by (relation "measure nat") auto

definition cast_text :: "int option \<Rightarrow> string option" where
  "cast_text a =
     (case a of
        None \<Rightarrow> None
      | Some n \<Rightarrow> Some (if n < 0 then CHR ''-'' # digits (- n) else digits n))"

text \<open>\<^verbatim>\<open>FROM documents d JOIN companies c ON d.company_id = c.id\<close>.\<close>

definition join_companies :: "db \<Rightarrow> (document \<times> company) list" where
  "join_companies s =
     concat (map (\<lambda>d. map (\<lambda>c. (d, c))
                   (filter (\<lambda>c. sql_eq (d_company_id d) (Some (c_id c))) (companies s)))
             (documents s))"

text \<open>\<^verbatim>\<open>SELECT * FROM document_items WHERE document_id = $1\<close>, attached to a row.\<close>

definition with_items :: "db \<Rightarrow> document \<times> company \<Rightarrow> listed_document" where
  "with_items s r =
     \<lparr>l_document = fst r, l_company = snd r,
      l_items = filter (\<lambda>x. di_document_id x = d_id (fst r)) (document_items s)\<rparr>"

text \<open>
  The conditions of the WHERE clause, joined with AND: the type when \<^verbatim>\<open>type\<close> is
  truthy, the three-way OR when \<^verbatim>\<open>search\<close> is truthy.
\<close>

definition type_condition :: "string option \<Rightarrow> document \<times> company \<Rightarrow> bool" where
  "type_condition ty r =
     (case text_or ty None of None \<Rightarrow> True | Some t \<Rightarrow> sql_eq (d_type (fst r)) (Some t))"

definition search_condition :: "like_token list \<Rightarrow> document \<times> company \<Rightarrow> bool" where
  "search_condition p r =
     (sql_ilike (c_name (snd r)) p \<or> sql_ilike (cast_text (d_folio (fst r))) p
      \<or> sql_ilike (d_reference (fst r)) p)"

definition get_documents :: "db \<Rightarrow> string option \<Rightarrow> string option \<Rightarrow> db \<times> response" where
  "get_documents s ty search =
     (case text_or search None of
        None \<Rightarrow>
          (s, DocumentList (map (with_items s)
                (rev (sort_key (\<lambda>r. d_id (fst r))
                   (filter (type_condition ty) (join_companies s))))))
      | Some q \<Rightarrow>
          (case like_parse (map lower_char (''%'' @ q @ ''%'')) of
             None \<Rightarrow> (s, ServerError invalid_escape_sequence)
           | Some p \<Rightarrow>
               (s, DocumentList (map (with_items s)
                     (rev (sort_key (\<lambda>r. d_id (fst r))
                        (filter (\<lambda>r. type_condition ty r \<and> search_condition p r)
                           (join_companies s))))))))"

section \<open>Status update, deletion, rendered view\<close>

text \<open>
  \<^verbatim>\<open>PUT /api/documents/:id/status\<close>:
  \<^verbatim>\<open>UPDATE documents SET status = $1 WHERE id = $2\<close>. The id is the text of the path;
  the rows the update writes have to pass the column checks.
\<close>

definition put_document_status :: "store_rules \<Rightarrow> db \<Rightarrow> string \<Rightarrow> string option \<Rightarrow> db \<times> response" where
  "put_document_status R s ident status =
     (case int4in R ident of
        None \<Rightarrow> (s, ServerError invalid_text_representation)
      | Some i \<Rightarrow>
          (let rows = map (\<lambda>d. if d_id d = i then d\<lparr>d_status := status\<rparr> else d) (documents s)
           in if list_all (documents_check R) (filter (\<lambda>d. d_id d = i) rows)
              then (s\<lparr>documents := rows\<rparr>, Message ''Estado actualizado'')
              else (s, ServerError check_violation)))"

text \<open>
  \<^verbatim>\<open>DELETE /api/documents/:id\<close>: \<^verbatim>\<open>DELETE FROM documents WHERE id = $1\<close>; the items
  of the document go with it (\<^verbatim>\<open>ON DELETE CASCADE\<close>).
\<close>

definition delete_document :: "store_rules \<Rightarrow> db \<Rightarrow> string \<Rightarrow> db \<times> response" where
  "delete_document R s ident =
     (case int4in R ident of
        None \<Rightarrow> (s, ServerError invalid_text_representation)
      | Some i \<Rightarrow>
          (s\<lparr>documents := filter (\<lambda>d. d_id d \<noteq> i) (documents s),
             document_items := filter (\<lambda>x. di_document_id x \<noteq> i) (document_items s)\<rparr>,
           Message ''Documento eliminado correctamente''))"


section \<open>Sequences of requests\<close>

datatype request =
    Create doc_request
  | SetStatus string "string option"
  | Delete string

fun handle :: "store_rules \<Rightarrow> db \<Rightarrow> request \<Rightarrow> db" where
  "handle R s (Create rq) = fst (post_documents R s rq)"
| "handle R s (SetStatus ident status) = fst (put_document_status R s ident status)"
| "handle R s (Delete ident) = fst (delete_document R s ident)"

fun run :: "store_rules \<Rightarrow> db \<Rightarrow> request list \<Rightarrow> db" where
  "run R s [] = s"
| "run R s (q # qs) = run R (handle R s q) qs"

text \<open>A request that leaves the folio to the allocator.\<close>

fun automatic :: "request \<Rightarrow> bool" where
  "automatic (Create rq) = (\<not> truthy (rq_folio rq))"
| "automatic (SetStatus ident status) = True"
| "automatic (Delete ident) = True"

section \<open>Auxiliary notions and example data\<close>

text \<open>The items of a request: none when the field is absent.\<close>

definition items_of :: "doc_request \<Rightarrow> item list" where
  "items_of rq = (case rq_items rq of None \<Rightarrow> [] | Some xs \<Rightarrow> xs)"

text \<open>
  One instance of the store's rules, for the examples: a text is read as a number when
  it is a non-empty run of decimal digits, a document type has at most 20 characters
  (\<^verbatim>\<open>VARCHAR(20)\<close>) and a quantity is a 32-bit integer (\<^verbatim>\<open>INTEGER\<close>).
\<close>

definition read_digits :: "string \<Rightarrow> int option" where
  "read_digits t =
     (if t \<noteq> [] \<and> list_all (\<lambda>c. 48 \<le> (of_char c :: nat) \<and> (of_char c :: nat) \<le> 57) t
      then Some (fold (\<lambda>c n. 10 * n + (int (of_char c) - 48)) t 0) else None)"

definition example_rules :: store_rules where
  "example_rules =
     \<lparr>int4in = read_digits, numeric_in = read_digits,
      documents_check = (\<lambda>d. length (case d_type d of None \<Rightarrow> [] | Some t \<Rightarrow> t) \<le> 20),
      document_items_check =
        (\<lambda>r. - 2147483648 \<le> di_quantity r \<and> di_quantity r \<le> 2147483647)\<rparr>"


text \<open>A store with one company and no document, and a request with every field absent.\<close>

definition example_db :: db where
  "example_db =
     \<lparr>companies = [\<lparr>c_id = 1, c_name = Some ''Acme'', c_rut = None, c_giro = None,
                    c_address = None, c_city = None\<rparr>],
      documents = [], document_items = [], documents_id_seq = 0, document_items_id_seq = 0\<rparr>"

definition blank_request :: doc_request where
  "blank_request =
     \<lparr>rq_type = None, rq_company_id = None, rq_date = None, rq_expiration_date = None,
      rq_items = None, rq_notes = None, rq_payment_terms = None, rq_delivery_time = None,
      rq_warranty = None, rq_reference = None, rq_parent_id = None, rq_status = None,
      rq_driver = None, rq_plate = None, rq_dispatch_type = None, rq_file_url = None,
      rq_total = JUndefined, rq_folio = JUndefined\<rparr>"

definition line :: "int \<Rightarrow> int \<Rightarrow> item" where
  "line q p =
     \<lparr>it_product_id = None, it_name = None, it_description = None,
      it_quantity = q, it_price = p\<rparr>"

text \<open>The row of an answer that reports a created document.\<close>

fun created :: "response \<Rightarrow> document option" where
  "created (DocumentCreated d) = Some d"
| "created r = None"

text \<open>The rows of an answer that lists documents.\<close>

fun listed :: "response \<Rightarrow> listed_document list" where
  "listed (DocumentList rows) = rows"
| "listed r = []"

text \<open>
  The specification's search: a term matches a field when the field is not NULL and
  holds the term as a contiguous part, letters compared without regard to case.
\<close>

definition contains_ci :: "string \<Rightarrow> string option \<Rightarrow> bool" where
  "contains_ci q x =
     (case x of None \<Rightarrow> False | Some t \<Rightarrow> sublist (map lower_char q) (map lower_char t))"

text \<open>The characters with a meaning of their own in a \<^verbatim>\<open>LIKE\<close> pattern.\<close>

definition wildcard :: "char \<Rightarrow> bool" where
  "wildcard c = (c = CHR ''%'' \<or> c = CHR ''_'' \<or> c = CHR 0x5C)"

section \<open>Properties\<close>

subsection \<open>The steps of a creation\<close>



lemma insert_document_item_ok:
  "insert_document_item R s row = (s1, Inr u) \<Longrightarrow>
     companies s1 = companies s \<and> documents s1 = documents s \<and>
     documents_id_seq s1 = documents_id_seq s \<and>
     document_items s1 = document_items s @ [row\<lparr>di_id := document_items_id_seq s + 1\<rparr>]"
  by (auto simp: insert_document_item_def Let_def split: if_splits)

lemma insert_items_ok:
  "insert_items R s i xs = (s', Inr u) \<Longrightarrow>
     companies s' = companies s \<and> documents s' = documents s \<and>
     documents_id_seq s' = documents_id_seq s \<and>
     (\<exists>rows. document_items s' = document_items s @ rows \<and> length rows = length xs \<and>
        list_all (\<lambda>r. di_document_id r = i) rows \<and>
        map di_total rows = map (\<lambda>x. it_quantity x * it_price x) xs)"
proof (induction xs arbitrary: s)
  case Nil
  then show ?case by simp
next
  case (Cons x xs)
  obtain s1 r where step: "insert_document_item R s (item_row i x) = (s1, r)"
    by (cases "insert_document_item R s (item_row i x)") auto
  show ?case
  proof (cases r)
    case (Inl e)
    with Cons.prems step show ?thesis by simp
  next
    case (Inr v)
    with Cons.prems step have rest: "insert_items R s1 i xs = (s', Inr u)" by simp
    from step Inr have one:
      "companies s1 = companies s" "documents s1 = documents s"
      "documents_id_seq s1 = documents_id_seq s"
      "document_items s1 =
         document_items s @ [(item_row i x)\<lparr>di_id := document_items_id_seq s + 1\<rparr>]"
      using insert_document_item_ok [of R s "item_row i x" s1 v] by simp_all
    from Cons.IH [OF rest] obtain rows where rows:
      "companies s' = companies s1" "documents s' = documents s1"
      "documents_id_seq s' = documents_id_seq s1"
      "document_items s' = document_items s1 @ rows" "length rows = length xs"
      "list_all (\<lambda>r. di_document_id r = i) rows"
      "map di_total rows = map (\<lambda>x. it_quantity x * it_price x) xs"
      by blast
    let ?r = "(item_row i x)\<lparr>di_id := document_items_id_seq s + 1\<rparr>"
    have "document_items s' = document_items s @ (?r # rows)"
      using rows(4) one(4) by simp
    moreover have "length (?r # rows) = length (x # xs)" using rows(5) by simp
    moreover have "list_all (\<lambda>r. di_document_id r = i) (?r # rows)"
      using rows(6) by (simp add: item_row_def)
    moreover have "map di_total (?r # rows) = map (\<lambda>x. it_quantity x * it_price x) (x # xs)"
      using rows(7) by (simp add: item_row_def)
    ultimately show ?thesis
      using rows(1-3) one(1-3) by metis
  qed
qed

lemma insert_document_ok:
  "insert_document R s row = (s1, Inr d) \<Longrightarrow>
     d = row\<lparr>d_id := documents_id_seq s + 1\<rparr> \<and>
     companies s1 = companies s \<and> documents s1 = documents s @ [d] \<and>
     document_items s1 = document_items s \<and> documents_check R d \<and>
     (case d_company_id row of None \<Rightarrow> True | Some c \<Rightarrow> c \<in> set (map c_id (companies s)))"
  by (auto simp: insert_document_def Let_def split: if_splits)

lemma create_document_ok:
  assumes "create_document R s rq = (s', Inr d)"
  shows "\<exists>nf folio tot rows.
     resolve_folio s rq = Inr nf \<and> bind_int4 R nf = Inr folio \<and>
     bind_numeric R (snd (snd (resolve_totals rq))) = Inr tot \<and>
     d = (header_row rq folio (fst (resolve_totals rq)) (fst (snd (resolve_totals rq))) tot)
           \<lparr>d_id := documents_id_seq s + 1\<rparr> \<and>
     companies s' = companies s \<and> documents s' = documents s @ [d] \<and>
     document_items s' = document_items s @ rows \<and>
     length rows = length (items_of rq) \<and>
     list_all (\<lambda>r. di_document_id r = d_id d) rows \<and>
     map di_total rows = map (\<lambda>x. it_quantity x * it_price x) (items_of rq)"
proof -
  obtain nf where nf: "resolve_folio s rq = Inr nf"
    using assms by (cases "resolve_folio s rq") (auto simp: create_document_def)
  obtain neto tax ft where tot: "resolve_totals rq = (neto, tax, ft)"
    by (cases "resolve_totals rq") auto
  obtain folio where folio: "bind_int4 R nf = Inr folio"
    using assms nf tot by (cases "bind_int4 R nf") (auto simp: create_document_def)
  obtain t where t: "bind_numeric R ft = Inr t"
    using assms nf tot folio by (cases "bind_numeric R ft") (auto simp: create_document_def)
  obtain s1 r where ins: "insert_document R s (header_row rq folio neto tax t) = (s1, r)"
    by (cases "insert_document R s (header_row rq folio neto tax t)") auto
  obtain doc where doc: "r = Inr doc"
    using assms nf tot folio t ins by (cases r) (auto simp: create_document_def)
  note hd = insert_document_ok [OF ins [unfolded doc]]
  have rest: "(case rq_items rq of
                 None \<Rightarrow> (s1, Inr doc)
               | Some xs \<Rightarrow>
                   if length xs > 0
                   then (case insert_items R s1 (d_id doc) xs of
                           (s2, Inl e) \<Rightarrow> (s2, Inl e)
                         | (s2, Inr u) \<Rightarrow> (s2, Inr doc))
                   else (s1, Inr doc)) = (s', Inr d)"
    using assms nf tot folio t ins doc by (simp add: create_document_def)
  have "d = doc \<and> companies s' = companies s1 \<and> documents s' = documents s1 \<and>
        (\<exists>rows. document_items s' = document_items s1 @ rows \<and>
           length rows = length (items_of rq) \<and>
           list_all (\<lambda>r. di_document_id r = d_id doc) rows \<and>
           map di_total rows = map (\<lambda>x. it_quantity x * it_price x) (items_of rq))"
  proof (cases "rq_items rq")
    case None
    with rest show ?thesis by (simp add: items_of_def)
  next
    case (Some xs)
    show ?thesis
    proof (cases "length xs > 0")
      case False
      with rest Some show ?thesis by (simp add: items_of_def)
    next
      case True
      obtain s2 r2 where it: "insert_items R s1 (d_id doc) xs = (s2, r2)"
        by (cases "insert_items R s1 (d_id doc) xs") auto
      from rest Some True it obtain u where u: "r2 = Inr u" "s' = s2" "d = doc"
        by (cases r2) auto
      from insert_items_ok [OF it [unfolded u(1)]] u Some show ?thesis
        by (simp add: items_of_def)
    qed
  qed
  with hd nf tot folio t show ?thesis
    by auto
qed



lemma post_documents_created:
  "post_documents R s rq = (s', DocumentCreated d) \<Longrightarrow> create_document R s rq = (s', Inr d)"
  by (auto simp: post_documents_def BEGIN_def COMMIT_def ROLLBACK_def split: prod.splits sum.splits)

lemma post_documents_error:
  "post_documents R s rq = (s', ServerError e) \<Longrightarrow>
     companies s' = companies s \<and> documents s' = documents s \<and>
     document_items s' = document_items s"
  by (auto simp: post_documents_def BEGIN_def COMMIT_def ROLLBACK_def split: prod.splits sum.splits)

lemma post_documents_cases:
  "(\<exists>d. snd (post_documents R s rq) = DocumentCreated d) \<or>
   (\<exists>e. snd (post_documents R s rq) = ServerError e)"
  by (cases "create_document R s rq")
     (auto simp: post_documents_def BEGIN_def Let_def split: sum.splits)

lemma created_obtain:
  "created (snd p) \<noteq> None \<Longrightarrow> \<exists>s' d. p = (s', DocumentCreated d)"
  by (cases p, cases "snd p") auto




subsection \<open>Totals resolution\<close>



subsection \<open>Folio allocation\<close>

lemma sql_max_eq: "sql_max xs = (if xs = [] then None else Some (Max (set xs)))"
  by (cases xs) (simp_all add: sql_max_def Max.set_eq_fold [symmetric])


lemma select_next_folio_value:
  "select_next_folio s ty = Inr n \<Longrightarrow>
     n = (if folios_of s ty = [] then 6060 else max (Max (set (folios_of s ty)) + 1) 6060)"
  by (auto simp: select_next_folio_def sql_max_eq sql_coalesce_def sql_greatest_def Let_def
           split: if_splits)

lemma automatic_folio:
  assumes "\<not> truthy (rq_folio rq)" and "post_documents R s rq = (s', DocumentCreated d)"
  shows "d_folio d =
           Some (if folios_of s (rq_type rq) = [] then 6060
                 else max (Max (set (folios_of s (rq_type rq))) + 1) 6060)"
proof -
  from create_document_ok [OF post_documents_created [OF assms(2)]]
  obtain nf folio tot where
    nf: "resolve_folio s rq = Inr nf" and folio: "bind_int4 R nf = Inr folio" and
    d: "d = (header_row rq folio (fst (resolve_totals rq)) (fst (snd (resolve_totals rq))) tot)
           \<lparr>d_id := documents_id_seq s + 1\<rparr>"
    by blast
  from nf assms(1) obtain n where n: "select_next_folio s (rq_type rq) = Inr n" "nf = JNum n"
    by (auto simp: resolve_folio_def split: sum.splits)
  from folio n have "folio = Some n" by (simp add: bind_int4_def)
  moreover have "d_folio d = folio" using d by (simp add: header_row_def)
  ultimately show ?thesis using select_next_folio_value [OF n(1)] by simp
qed



text \<open>
  The older variant of the route has no floor: its first folio of a type is 1.
\<close>

lemma select_next_folio_old_first: "select_next_folio_old example_db (Some ''INV'') = Inr 1"
  by code_simp

lemma select_next_folio_first: "select_next_folio example_db (Some ''INV'') = Inr 6060"
  by code_simp




subsection \<open>Explicit folios\<close>

lemma insert_document_item_seq:
  "document_items_id_seq (fst (insert_document_item R s row)) = document_items_id_seq s + 1"
  by (simp add: insert_document_item_def Let_def)

lemma insert_document_item_indep:
  "document_items_id_seq t = document_items_id_seq s \<Longrightarrow>
     snd (insert_document_item R t row) = snd (insert_document_item R s row)"
  by (simp add: insert_document_item_def Let_def)

lemma insert_items_indep:
  "document_items_id_seq t = document_items_id_seq s \<Longrightarrow>
     snd (insert_items R t i xs) = snd (insert_items R s i xs)"
proof (induction xs arbitrary: s t)
  case Nil
  then show ?case by simp
next
  case (Cons x xs)
  obtain t1 rt where t1: "insert_document_item R t (item_row i x) = (t1, rt)"
    by (cases "insert_document_item R t (item_row i x)") auto
  obtain s1 rs where s1: "insert_document_item R s (item_row i x) = (s1, rs)"
    by (cases "insert_document_item R s (item_row i x)") auto
  have r: "rt = rs"
    using insert_document_item_indep [OF Cons.prems, of R "item_row i x"] t1 s1 by simp
  have q: "document_items_id_seq t1 = document_items_id_seq s1"
    using insert_document_item_seq [of R t "item_row i x"]
      insert_document_item_seq [of R s "item_row i x"] t1 s1 Cons.prems by simp
  show ?case
  proof (cases rs)
    case (Inl e)
    with t1 s1 r show ?thesis by simp
  next
    case (Inr u)
    with t1 s1 r Cons.IH [OF q] show ?thesis by simp
  qed
qed

lemma insert_document_indep:
  assumes "companies t = companies s" and "documents_id_seq t = documents_id_seq s"
  shows "snd (insert_document R t row) = snd (insert_document R s row)"
  using assms by (simp add: insert_document_def Let_def cong: option.case_cong)

lemma insert_document_items_seq:
  "document_items_id_seq (fst (insert_document R s row)) = document_items_id_seq s"
  by (simp add: insert_document_def Let_def)

lemma create_document_explicit_indep:
  assumes folio: "truthy (rq_folio rq)"
    and c: "companies t = companies s"
    and q1: "documents_id_seq t = documents_id_seq s"
    and q2: "document_items_id_seq t = document_items_id_seq s"
  shows "snd (create_document R t rq) = snd (create_document R s rq)"
proof -
  have rf: "resolve_folio t rq = Inr (rq_folio rq)" "resolve_folio s rq = Inr (rq_folio rq)"
    using folio by (simp_all add: resolve_folio_def)
  obtain neto tax ft where tot: "resolve_totals rq = (neto, tax, ft)"
    by (cases "resolve_totals rq") auto
  show ?thesis
  proof (cases "bind_int4 R (rq_folio rq)")
    case (Inl e)
    then show ?thesis by (simp add: create_document_def rf tot)
  next
    case f: (Inr f)
    show ?thesis
    proof (cases "bind_numeric R ft")
      case (Inl e)
      then show ?thesis by (simp add: create_document_def rf tot f)
    next
      case n: (Inr n)
      let ?row = "header_row rq f neto tax n"
      obtain t1 rt where t1: "insert_document R t ?row = (t1, rt)"
        by (cases "insert_document R t ?row") auto
      obtain s1 rs where s1: "insert_document R s ?row = (s1, rs)"
        by (cases "insert_document R s ?row") auto
      have r: "rt = rs"
        using insert_document_indep [OF c q1, of R ?row] t1 s1 by simp
      have q: "document_items_id_seq t1 = document_items_id_seq s1"
        using insert_document_items_seq [of R t ?row] insert_document_items_seq [of R s ?row]
          t1 s1 q2 by simp
      show ?thesis
      proof (cases rs)
        case (Inl e)
        with r t1 s1 show ?thesis by (simp add: create_document_def rf tot f n)
      next
        case doc: (Inr doc)
        show ?thesis
        proof (cases "rq_items rq")
          case None
          with r t1 s1 doc show ?thesis by (simp add: create_document_def rf tot f n)
        next
          case (Some xs)
          obtain t2 r2 where t2: "insert_items R t1 (d_id doc) xs = (t2, r2)"
            by (cases "insert_items R t1 (d_id doc) xs") auto
          obtain s2 r3 where s2: "insert_items R s1 (d_id doc) xs = (s2, r3)"
            by (cases "insert_items R s1 (d_id doc) xs") auto
          have "r2 = r3"
            using insert_items_indep [OF q, of R "d_id doc" xs] t2 s2 by simp
          with r t1 s1 doc Some t2 s2 show ?thesis
            by (cases r3) (simp_all add: create_document_def rf tot f n)
        qed
      qed
    qed
  qed
qed

lemma post_documents_snd:
  "snd (post_documents R s rq) =
     (case snd (create_document R s rq) of Inl e \<Rightarrow> ServerError e | Inr d \<Rightarrow> DocumentCreated d)"
  by (cases "create_document R s rq")
     (auto simp: post_documents_def BEGIN_def Let_def split: sum.splits)

text \<open>
  Claim C5, as the route has it. A folio of the request that is truthy (a number other
  than 0, a non-empty text) is the folio of the document the request creates, as the
  store reads it into the INTEGER column: a number is stored as it is. No allocation
  and no uniqueness check take place: the answer is the same over any store with the
  same companies and sequences, whatever documents it holds.
\<close>

theorem explicit_folio_verbatim:
  assumes "truthy (rq_folio rq)" and "post_documents R s rq = (s', DocumentCreated d)"
  shows "bind_int4 R (rq_folio rq) = Inr (d_folio d) \<and>
         (\<forall>n. rq_folio rq = JNum n \<longrightarrow> d_folio d = Some n) \<and>
         (\<forall>t. companies t = companies s \<and> documents_id_seq t = documents_id_seq s \<and>
              document_items_id_seq t = document_items_id_seq s \<longrightarrow>
              snd (post_documents R t rq) = DocumentCreated d)"
proof -
  from create_document_ok [OF post_documents_created [OF assms(2)]]
  obtain nf folio tot where
    nf: "resolve_folio s rq = Inr nf" and folio: "bind_int4 R nf = Inr folio" and
    d: "d = (header_row rq folio (fst (resolve_totals rq)) (fst (snd (resolve_totals rq))) tot)
           \<lparr>d_id := documents_id_seq s + 1\<rparr>"
    by blast
  have "nf = rq_folio rq"
    using nf assms(1) by (simp add: resolve_folio_def)
  moreover have "d_folio d = folio"
    using d by (simp add: header_row_def)
  ultimately have stored: "bind_int4 R (rq_folio rq) = Inr (d_folio d)"
    using folio by simp
  then have num: "\<forall>n. rq_folio rq = JNum n \<longrightarrow> d_folio d = Some n"
    by (auto simp: bind_int4_def)
  have here: "snd (post_documents R s rq) = DocumentCreated d"
    using assms(2) by simp
  have "snd (post_documents R t rq) = DocumentCreated d"
    if "companies t = companies s \<and> documents_id_seq t = documents_id_seq s \<and>
        document_items_id_seq t = document_items_id_seq s" for t
  proof -
    from that have "snd (create_document R t rq) = snd (create_document R s rq)"
      using create_document_explicit_indep [OF assms(1), of t s R] by simp
    with here show ?thesis by (simp add: post_documents_snd)
  qed
  with stored num show ?thesis by blast
qed

theorem explicit_folio_verbatim_witness:
  "\<exists>s' d. post_documents example_rules
            (run example_rules example_db
               [Create (blank_request\<lparr>rq_type := Some ''INV'', rq_company_id := Some 1,
                          rq_folio := JNum 7000\<rparr>)])
            (blank_request\<lparr>rq_type := Some ''INV'', rq_company_id := Some 1,
               rq_folio := JNum 7000\<rparr>)
          = (s', DocumentCreated d) \<and> d_folio d = Some 7000 \<and>
          map d_folio (documents s') = [Some 7000, Some 7000]"
proof -
  let ?rq = "blank_request\<lparr>rq_type := Some ''INV'', rq_company_id := Some 1,
               rq_folio := JNum 7000\<rparr>"
  let ?s = "run example_rules example_db [Create ?rq]"
  have "created (snd (post_documents example_rules ?s ?rq)) \<noteq> None"
    by code_simp
  then obtain s' d where eq: "post_documents example_rules ?s ?rq = (s', DocumentCreated d)"
    using created_obtain by blast
  have t: "truthy (rq_folio ?rq)"
    by simp
  have "rq_folio ?rq = JNum 7000"
    by simp
  with explicit_folio_verbatim [OF t eq] have f: "d_folio d = Some 7000"
    by blast
  have "map d_folio (documents (fst (post_documents example_rules ?s ?rq))) =
          [Some 7000, Some 7000]"
    by code_simp
  with eq f show ?thesis by auto
qed

text \<open>
  Claim C5 as stated fails at a folio of 0: the value is supplied, yet the document is
  given the allocator's folio 6060.
\<close>

theorem explicit_folio_zero_counterexample:
  "map_option d_folio (created (snd (post_documents example_rules example_db
      (blank_request\<lparr>rq_type := Some ''INV'', rq_company_id := Some 1,
         rq_folio := JNum 0\<rparr>)))) = Some (Some 6060)"
  by code_simp

subsection \<open>Atomicity of a creation\<close>

text \<open>
  Claim C3. A creation request is answered either with status 500 or with the created
  document. After status 500, whichever step failed (the folio read, the header insert,
  an item insert at any position), the tables \<^verbatim>\<open>documents\<close> and \<^verbatim>\<open>document_items\<close> are
  what they were before the request. After a created document, \<^verbatim>\<open>documents\<close> has
  gained exactly that one row and \<^verbatim>\<open>document_items\<close> exactly one row per item of the
  request, each referring to the new document.
\<close>

theorem creation_is_atomic:
  "(\<forall>e. post_documents R s rq = (s', ServerError e) \<longrightarrow>
      documents s' = documents s \<and> document_items s' = document_items s) \<and>
   (\<forall>d. post_documents R s rq = (s', DocumentCreated d) \<longrightarrow>
      documents s' = documents s @ [d] \<and>
      (\<exists>rows. document_items s' = document_items s @ rows \<and>
         length rows = length (items_of rq) \<and>
         list_all (\<lambda>r. di_document_id r = d_id d) rows)) \<and>
   ((\<exists>e. snd (post_documents R s rq) = ServerError e) \<or>
    (\<exists>d. snd (post_documents R s rq) = DocumentCreated d))"
proof -
  have failure: "documents s' = documents s \<and> document_items s' = document_items s"
    if "post_documents R s rq = (s', ServerError e)" for e
    using post_documents_error [OF that] by simp
  have success:
    "documents s' = documents s @ [d] \<and>
     (\<exists>rows. document_items s' = document_items s @ rows \<and>
        length rows = length (items_of rq) \<and>
        list_all (\<lambda>r. di_document_id r = d_id d) rows)"
    if "post_documents R s rq = (s', DocumentCreated d)" for d
    using create_document_ok [OF post_documents_created [OF that]] by blast
  from failure success post_documents_cases [of R s rq] show ?thesis
    by blast
qed

theorem creation_is_atomic_witness:
  "snd (post_documents example_rules example_db
          (blank_request\<lparr>rq_type := Some ''INV'', rq_company_id := Some 1,
             rq_items := Some [line 2 1000, line 2147483648 5, line 1 1]\<rparr>))
     = ServerError check_violation \<and>
   documents (fst (post_documents example_rules example_db
          (blank_request\<lparr>rq_type := Some ''INV'', rq_company_id := Some 1,
             rq_items := Some [line 2 1000, line 2147483648 5, line 1 1]\<rparr>))) = [] \<and>
   document_items (fst (post_documents example_rules example_db
          (blank_request\<lparr>rq_type := Some ''INV'', rq_company_id := Some 1,
             rq_items := Some [line 2 1000, line 2147483648 5, line 1 1]\<rparr>))) = [] \<and>
   snd (post_documents example_rules example_db
          (blank_request\<lparr>rq_type := Some ''INV'', rq_company_id := Some 2\<rparr>))
     = ServerError foreign_key_violation \<and>
   length (document_items (fst (post_documents example_rules example_db
          (blank_request\<lparr>rq_type := Some ''INV'', rq_company_id := Some 1,
             rq_items := Some [line 2 1000, line 1 500]\<rparr>)))) = 2"
proof -
  let ?bad = "blank_request\<lparr>rq_type := Some ''INV'', rq_company_id := Some 1,
             rq_items := Some [line 2 1000, line 2147483648 5, line 1 1]\<rparr>"
  let ?good = "blank_request\<lparr>rq_type := Some ''INV'', rq_company_id := Some 1,
             rq_items := Some [line 2 1000, line 1 500]\<rparr>"
  have r: "snd (post_documents example_rules example_db ?bad) = ServerError check_violation"
    by code_simp
  then have eq: "post_documents example_rules example_db ?bad =
      (fst (post_documents example_rules example_db ?bad), ServerError check_violation)"
    by (simp add: prod_eq_iff)
  have before: "documents example_db = []" "document_items example_db = []"
    by (simp_all add: example_db_def)
  from creation_is_atomic [of example_rules example_db ?bad
      "fst (post_documents example_rules example_db ?bad)"] eq before
  have tables: "documents (fst (post_documents example_rules example_db ?bad)) = []"
    "document_items (fst (post_documents example_rules example_db ?bad)) = []"
    by auto
  have fk: "snd (post_documents example_rules example_db
          (blank_request\<lparr>rq_type := Some ''INV'', rq_company_id := Some 2\<rparr>))
     = ServerError foreign_key_violation"
    by code_simp
  have "created (snd (post_documents example_rules example_db ?good)) \<noteq> None"
    by code_simp
  then obtain s' d where ok: "post_documents example_rules example_db ?good = (s', DocumentCreated d)"
    using created_obtain by blast
  have "items_of ?good = [line 2 1000, line 1 500]"
    by (simp add: items_of_def)
  with creation_is_atomic [of example_rules example_db ?good s'] ok before
  have "length (document_items s') = 2"
    by auto
  with ok have "length (document_items (fst (post_documents example_rules example_db ?good))) = 2"
    by simp
  with r tables fk show ?thesis by simp
qed

subsection \<open>Requests without type or company\<close>







subsection \<open>Folios along a sequence of requests\<close>

lemma folios_of_append:
  "documents s' = documents s @ [d] \<Longrightarrow>
     folios_of s' ty =
       folios_of s ty @ (if sql_eq (d_type d) ty then (case d_folio d of None \<Rightarrow> [] | Some f \<Rightarrow> [f]) else [])"
  by (simp add: folios_of_def List.map_filter_def split: option.splits)

lemma below_allocated:
  assumes "x \<in> set fs"
  shows "x < (if fs = [] then 6060 else max (Max (set fs) + 1) (6060 :: int))"
proof -
  from assms have "x \<le> Max (set fs)" by simp
  moreover from assms have "fs \<noteq> []" by auto
  ultimately show ?thesis by simp
qed

lemma create_keeps_increasing:
  assumes inc: "sorted_wrt (<) (folios_of s (Some ty))"
    and auto: "\<not> truthy (rq_folio rq)"
  shows "sorted_wrt (<) (folios_of (fst (post_documents R s rq)) (Some ty))"
proof -
  obtain s' r where p: "post_documents R s rq = (s', r)"
    by (cases "post_documents R s rq") auto
  from post_documents_cases [of R s rq] p
  consider (ok) d where "r = DocumentCreated d" | (err) e where "r = ServerError e"
    by auto
  then have "sorted_wrt (<) (folios_of s' (Some ty))"
  proof cases
    case err
    with p post_documents_error [of R s rq s' e] have "documents s' = documents s"
      by simp
    with inc show ?thesis
      by (simp add: folios_of_def)
  next
    case ok
    with p have pd: "post_documents R s rq = (s', DocumentCreated d)" by simp
    from create_document_ok [OF post_documents_created [OF pd]] obtain folio tot where
      d: "d = (header_row rq folio (fst (resolve_totals rq)) (fst (snd (resolve_totals rq))) tot)
           \<lparr>d_id := documents_id_seq s + 1\<rparr>" and
      docs: "documents s' = documents s @ [d]"
      by blast
    have ty: "d_type d = rq_type rq" using d by (simp add: header_row_def)
    note f = automatic_folio [OF auto pd]
    show ?thesis
    proof (cases "sql_eq (d_type d) (Some ty)")
      case False
      with folios_of_append [OF docs, of "Some ty"] inc show ?thesis by simp
    next
      case True
      with ty have rt: "rq_type rq = Some ty"
        by (simp add: sql_eq_def split: option.splits)
      let ?n = "if folios_of s (Some ty) = [] then 6060
                else max (Max (set (folios_of s (Some ty))) + 1) 6060"
      from f rt have fd: "d_folio d = Some ?n" by simp
      from folios_of_append [OF docs, of "Some ty"] True fd
      have "folios_of s' (Some ty) = folios_of s (Some ty) @ [?n]" by simp
      moreover have "\<forall>x\<in>set (folios_of s (Some ty)). x < ?n"
        by (intro ballI below_allocated)
      ultimately show ?thesis using inc
        by (simp add: sorted_wrt_append)
    qed
  qed
  with p show ?thesis by simp
qed

lemma sorted_wrt_map_filter_filter:
  assumes "sorted_wrt (<) (List.map_filter f (filter P xs))"
  shows "sorted_wrt (<) (List.map_filter f (filter P (filter Q xs)))"
proof -
  let ?A = "\<lambda>x. f x \<noteq> None"
  have eq: "filter ?A (filter P (filter Q xs)) = filter Q (filter ?A (filter P xs))"
    by (induction xs) simp_all
  from assms have "sorted_wrt (\<lambda>x y. (the \<circ> f) x < (the \<circ> f) y) (filter ?A (filter P xs))"
    by (simp only: List.map_filter_def sorted_wrt_map)
  then have "sorted_wrt (\<lambda>x y. (the \<circ> f) x < (the \<circ> f) y)
               (filter Q (filter ?A (filter P xs)))"
    by (rule sorted_wrt_filter)
  then show ?thesis
    by (simp only: List.map_filter_def sorted_wrt_map eq)
qed

lemma delete_keeps_increasing:
  assumes "sorted_wrt (<) (folios_of s (Some ty))"
  shows "sorted_wrt (<) (folios_of (fst (delete_document R s ident)) (Some ty))"
proof (cases "int4in R ident")
  case None
  with assms show ?thesis by (simp add: delete_document_def)
next
  case (Some i)
  with assms sorted_wrt_map_filter_filter
    [of d_folio "\<lambda>d. sql_eq (d_type d) (Some ty)" "documents s" "\<lambda>d. d_id d \<noteq> i"]
  show ?thesis
    by (simp add: delete_document_def folios_of_def)
qed

lemma folios_of_status:
  "List.map_filter d_folio (filter (\<lambda>d. sql_eq (d_type d) ty)
       (map (\<lambda>d. if d_id d = i then d\<lparr>d_status := st\<rparr> else d) xs)) =
   List.map_filter d_folio (filter (\<lambda>d. sql_eq (d_type d) ty) xs)"
  by (induction xs) (auto split: option.splits)

lemma status_keeps_folios:
  "folios_of (fst (put_document_status R s ident st)) ty = folios_of s ty"
  by (auto simp: put_document_status_def folios_of_def folios_of_status Let_def
           split: option.splits)

lemma handle_keeps_increasing:
  assumes "sorted_wrt (<) (folios_of s (Some ty))" and "automatic q"
  shows "sorted_wrt (<) (folios_of (handle R s q) (Some ty))"
proof (cases q)
  case (Create rq)
  with assms create_keeps_increasing show ?thesis by simp
next
  case (SetStatus ident st)
  with assms show ?thesis by (simp add: status_keeps_folios)
next
  case (Delete ident)
  with assms delete_keeps_increasing show ?thesis by simp
qed

text \<open>
  Claim C4, as the routes have it. Along any sequence of creations that leave the folio
  to the allocator, status updates and deletions, starting in a state where the folios
  of a type increase strictly in creation order (the empty store, say), the folios of
  the stored documents of that type still increase strictly in creation order, and so
  are pairwise distinct.
\<close>

theorem allocated_folios_increase:
  assumes "sorted_wrt (<) (folios_of s (Some ty))" and "list_all automatic qs"
  shows "sorted_wrt (<) (folios_of (run R s qs) (Some ty)) \<and>
         distinct (folios_of (run R s qs) (Some ty))"
proof -
  from assms have "sorted_wrt (<) (folios_of (run R s qs) (Some ty))"
  proof (induction qs arbitrary: s)
    case Nil
    then show ?case by simp
  next
    case (Cons q qs)
    from Cons.prems have "sorted_wrt (<) (folios_of (handle R s q) (Some ty))"
      using handle_keeps_increasing by simp
    with Cons show ?case by simp
  qed
  moreover from this have "distinct (folios_of (run R s qs) (Some ty))"
    using strict_sorted_iff by blast
  ultimately show ?thesis by simp
qed

theorem allocated_folios_increase_witness:
  "folios_of
     (run example_rules example_db
        [Create (blank_request\<lparr>rq_type := Some ''INV'', rq_company_id := Some 1\<rparr>),
         Create (blank_request\<lparr>rq_type := Some ''INV'', rq_company_id := Some 1\<rparr>),
         Create (blank_request\<lparr>rq_type := Some ''COT'', rq_company_id := Some 1\<rparr>),
         Delete ''1'',
         SetStatus ''2'' (Some ''Pagada''),
         Create (blank_request\<lparr>rq_type := Some ''INV'', rq_company_id := Some 1\<rparr>)])
     (Some ''INV'') = [6061, 6062] \<and>
   sorted_wrt (<) (folios_of
     (run example_rules example_db
        [Create (blank_request\<lparr>rq_type := Some ''INV'', rq_company_id := Some 1\<rparr>),
         Create (blank_request\<lparr>rq_type := Some ''INV'', rq_company_id := Some 1\<rparr>),
         Create (blank_request\<lparr>rq_type := Some ''COT'', rq_company_id := Some 1\<rparr>),
         Delete ''1'',
         SetStatus ''2'' (Some ''Pagada''),
         Create (blank_request\<lparr>rq_type := Some ''INV'', rq_company_id := Some 1\<rparr>)])
     (Some ''INV''))"
proof -
  let ?inv = "blank_request\<lparr>rq_type := Some ''INV'', rq_company_id := Some 1\<rparr>"
  let ?qs = "[Create ?inv, Create ?inv,
         Create (blank_request\<lparr>rq_type := Some ''COT'', rq_company_id := Some 1\<rparr>),
         Delete ''1'', SetStatus ''2'' (Some ''Pagada''), Create ?inv]"
  have start: "sorted_wrt (<) (folios_of example_db (Some ''INV''))"
    by (simp add: folios_of_def example_db_def)
  have all: "list_all automatic ?qs"
    by (simp add: blank_request_def)
  have "folios_of (run example_rules example_db ?qs) (Some ''INV'') = [6061, 6062]"
    by code_simp
  with allocated_folios_increase [OF start all, of example_rules] show ?thesis
    by simp
qed

text \<open>
  Claim C4 as stated fails twice. The folio 6060 of the first document (id 1) is given
  again to the next document of the type (id 2) once the first is deleted; and a
  creation with an explicit folio stores a folio that is already there.
\<close>

theorem folio_reuse_counterexample:
  "map (\<lambda>d. (d_id d, d_folio d))
     (documents (run example_rules example_db
        [Create (blank_request\<lparr>rq_type := Some ''INV'', rq_company_id := Some 1\<rparr>)]))
     = [(1, Some 6060)] \<and>
   map (\<lambda>d. (d_id d, d_folio d))
     (documents (run example_rules example_db
        [Create (blank_request\<lparr>rq_type := Some ''INV'', rq_company_id := Some 1\<rparr>),
         Delete ''1'',
         Create (blank_request\<lparr>rq_type := Some ''INV'', rq_company_id := Some 1\<rparr>)]))
     = [(2, Some 6060)] \<and>
   map (\<lambda>d. (d_id d, d_folio d))
     (documents (run example_rules example_db
        [Create (blank_request\<lparr>rq_type := Some ''INV'', rq_company_id := Some 1\<rparr>),
         Create (blank_request\<lparr>rq_type := Some ''INV'', rq_company_id := Some 1,
                   rq_folio := JNum 6060\<rparr>)]))
     = [(1, Some 6060), (2, Some 6060)]"
  by code_simp

subsection \<open>Rendered view\<close>




subsection \<open>Status update\<close>

text \<open>
  Claim C9. The status update leaves companies, items and sequences as they are, and
  the documents in place: each stored document either stays as it is or, when it has
  the addressed id, has its status replaced and nothing else. Folio, type, company,
  neto, tax and total of every document are what they were.
\<close>

theorem status_update_frame:
  "companies (fst (put_document_status R s ident st)) = companies s \<and>
   document_items (fst (put_document_status R s ident st)) = document_items s \<and>
   documents_id_seq (fst (put_document_status R s ident st)) = documents_id_seq s \<and>
   document_items_id_seq (fst (put_document_status R s ident st)) = document_items_id_seq s \<and>
   length (documents (fst (put_document_status R s ident st))) = length (documents s) \<and>
   (\<forall>k < length (documents s).
      documents (fst (put_document_status R s ident st)) ! k = documents s ! k \<or>
      (int4in R ident = Some (d_id (documents s ! k)) \<and>
       documents (fst (put_document_status R s ident st)) ! k =
         (documents s ! k)\<lparr>d_status := st\<rparr>)) \<and>
   map (\<lambda>d. (d_id d, d_type d, d_folio d, d_company_id d, d_neto d, d_tax d, d_total d))
       (documents (fst (put_document_status R s ident st))) =
     map (\<lambda>d. (d_id d, d_type d, d_folio d, d_company_id d, d_neto d, d_tax d, d_total d))
       (documents s)"
proof (cases "int4in R ident")
  case None
  then show ?thesis by (simp add: put_document_status_def)
next
  case (Some i)
  let ?rows = "map (\<lambda>d. if d_id d = i then d\<lparr>d_status := st\<rparr> else d) (documents s)"
  show ?thesis
  proof (cases "list_all (documents_check R) (filter (\<lambda>d. d_id d = i) ?rows)")
    case False
    with Some show ?thesis by (simp add: put_document_status_def)
  next
    case True
    with Some have eq: "fst (put_document_status R s ident st) = s\<lparr>documents := ?rows\<rparr>"
      by (simp add: put_document_status_def)
    have cols:
      "map (\<lambda>d. (d_id d, d_type d, d_folio d, d_company_id d, d_neto d, d_tax d, d_total d)) ?rows =
       map (\<lambda>d. (d_id d, d_type d, d_folio d, d_company_id d, d_neto d, d_tax d, d_total d))
         (documents s)"
      by (induction "documents s") auto
    show ?thesis
      unfolding eq using Some cols by simp
  qed
qed

theorem status_update_frame_witness:
  "1 < length (documents (run example_rules example_db
          [Create (blank_request\<lparr>rq_type := Some ''INV'', rq_company_id := Some 1\<rparr>),
           Create (blank_request\<lparr>rq_type := Some ''INV'', rq_company_id := Some 1\<rparr>)])) \<and>
   d_folio (documents (fst (put_document_status example_rules
       (run example_rules example_db
          [Create (blank_request\<lparr>rq_type := Some ''INV'', rq_company_id := Some 1\<rparr>),
           Create (blank_request\<lparr>rq_type := Some ''INV'', rq_company_id := Some 1\<rparr>)])
       ''2'' (Some ''Pagada''))) ! 1) = Some 6061 \<and>
   map d_status (documents (fst (put_document_status example_rules
       (run example_rules example_db
          [Create (blank_request\<lparr>rq_type := Some ''INV'', rq_company_id := Some 1\<rparr>),
           Create (blank_request\<lparr>rq_type := Some ''INV'', rq_company_id := Some 1\<rparr>)])
       ''2'' (Some ''Pagada'')))) = [Some ''Emitida'', Some ''Pagada'']"
proof -
  let ?inv = "blank_request\<lparr>rq_type := Some ''INV'', rq_company_id := Some 1\<rparr>"
  let ?s = "run example_rules example_db [Create ?inv, Create ?inv]"
  let ?s' = "fst (put_document_status example_rules ?s ''2'' (Some ''Pagada''))"
  have len: "1 < length (documents ?s)"
    by code_simp
  have before: "d_folio (documents ?s ! 1) = Some 6061"
    by code_simp
  from status_update_frame [of example_rules ?s "''2''" "Some ''Pagada''"] len
  have "documents ?s' ! 1 = documents ?s ! 1 \<or>
        documents ?s' ! 1 = (documents ?s ! 1)\<lparr>d_status := Some ''Pagada''\<rparr>"
    by blast
  then have "d_folio (documents ?s' ! 1) = d_folio (documents ?s ! 1)"
    by auto
  with before have folio: "d_folio (documents ?s' ! 1) = Some 6061"
    by simp
  have "map d_status (documents ?s') = [Some ''Emitida'', Some ''Pagada'']"
    by code_simp
  with len folio show ?thesis by blast
qed

subsection \<open>Search\<close>

lemma lower_char_code:
  "of_char (lower_char c) = (if 65 \<le> (of_char c :: nat) \<and> (of_char c :: nat) \<le> 90
     then of_char c + 32 else (of_char c :: nat))"
  by (simp add: lower_char_def Let_def)

lemma wildcard_code: "wildcard c \<longleftrightarrow> (of_char c :: nat) \<in> {37, 95, 92}"
proof -
  have "c = CHR ''%'' \<longleftrightarrow> (of_char c :: nat) = of_char CHR ''%''"
       "c = CHR ''_'' \<longleftrightarrow> (of_char c :: nat) = of_char CHR ''_''"
       "c = CHR 0x5C \<longleftrightarrow> (of_char c :: nat) = of_char (CHR 0x5C)"
    by (simp_all only: of_char_eq_iff)
  then show ?thesis
    by (simp add: wildcard_def)
qed

lemma wildcard_lower_char: "wildcard (lower_char c) \<longleftrightarrow> wildcard c"
  by (auto simp: wildcard_code lower_char_code)

lemma like_parse_literal:
  "list_all (\<lambda>c. \<not> wildcard c) q \<Longrightarrow> like_parse (q @ ''%'') = Some (map Lit q @ [AnySeq])"
  by (induction q) (auto simp: wildcard_def)

lemma like_match_literal: "like_match (map Lit p @ [AnySeq]) t \<longleftrightarrow> prefix p t"
proof (induction p arbitrary: t)
  case Nil
  show ?case by (induction t) simp_all
next
  case (Cons a p)
  then show ?case by (cases t) auto
qed

lemma like_match_any: "like_match (AnySeq # ps) t \<longleftrightarrow> (\<exists>u. suffix u t \<and> like_match ps u)"
proof (induction t)
  case Nil
  show ?case by simp
next
  case (Cons c t)
  show ?case
    by (auto simp: Cons suffix_Cons)
qed

lemma like_match_contains:
  "like_match (AnySeq # map Lit p @ [AnySeq]) t \<longleftrightarrow> sublist p t"
  by (auto simp: like_match_any like_match_literal sublist_altdef')

lemma search_pattern:
  assumes "list_all (\<lambda>c. \<not> wildcard c) q"
  shows "like_parse (map lower_char (''%'' @ q @ ''%'')) =
           Some (AnySeq # map Lit (map lower_char q) @ [AnySeq])"
proof -
  have low: "lower_char CHR ''%'' = CHR ''%''"
    by (simp add: lower_char_def)
  have "list_all (\<lambda>c. \<not> wildcard c) (map lower_char q)"
    using assms by (simp add: list_all_iff wildcard_lower_char)
  from like_parse_literal [OF this] low show ?thesis
    by simp
qed

lemma sql_ilike_contains:
  "sql_ilike x (AnySeq # map Lit (map lower_char q) @ [AnySeq]) = contains_ci q x"
proof (cases x)
  case None
  then show ?thesis by (simp add: sql_ilike_def contains_ci_def)
next
  case (Some t)
  then show ?thesis
    unfolding sql_ilike_def contains_ci_def
    using like_match_contains [of "map lower_char q" "map lower_char t"]
    by (simp del: map_map)
qed

lemma sql_eq_Some: "sql_eq a (Some y) \<longleftrightarrow> a = Some y"
  by (cases a) (simp_all add: sql_eq_def)

lemma join_companies_iff:
  "r \<in> set (join_companies s) \<longleftrightarrow>
     fst r \<in> set (documents s) \<and> snd r \<in> set (companies s) \<and>
     d_company_id (fst r) = Some (c_id (snd r))"
  by (cases r) (auto simp: join_companies_def sql_eq_Some)

lemma type_condition_iff:
  "type_condition ty r \<longleftrightarrow> (ty = None \<or> ty = Some [] \<or> d_type (fst r) = ty)"
  by (auto simp: type_condition_def text_or_def sql_eq_def split: option.splits)

text \<open>
  Claim C8, as the route has it. For a search term that is not empty and holds none of
  the pattern characters \<^verbatim>\<open>%\<close>, \<^verbatim>\<open>_\<close> and backslash, the list holds exactly the
  documents joined with their company (a document without a stored company is never
  listed) for which the term is contained, without regard to case, in the company's
  name, or in the folio written as text, or in the reference; and, when a type is given
  as well, whose type is that type.
\<close>

theorem search_filter:
  assumes "q \<noteq> []" and "list_all (\<lambda>c. \<not> wildcard c) q"
  shows "l \<in> set (listed (snd (get_documents s ty (Some q)))) \<longleftrightarrow>
     (\<exists>d\<in>set (documents s). \<exists>c\<in>set (companies s).
        l = with_items s (d, c) \<and> d_company_id d = Some (c_id c) \<and>
        (ty = None \<or> ty = Some [] \<or> d_type d = ty) \<and>
        (contains_ci q (c_name c) \<or> contains_ci q (cast_text (d_folio d)) \<or>
         contains_ci q (d_reference d)))"
proof -
  define p where "p = AnySeq # map Lit (map lower_char q) @ [AnySeq]"
  have parse: "like_parse (map lower_char (''%'' @ q @ ''%'')) = Some p"
    unfolding p_def by (rule search_pattern [OF assms(2)])
  have cond: "search_condition p r \<longleftrightarrow>
      contains_ci q (c_name (snd r)) \<or> contains_ci q (cast_text (d_folio (fst r))) \<or>
      contains_ci q (d_reference (fst r))" for r
    unfolding search_condition_def p_def sql_ilike_contains ..
  have q: "text_or (Some q) None = Some q"
    using assms(1) by (simp add: text_or_def)
  have rows: "listed (snd (get_documents s ty (Some q))) =
      map (with_items s)
        (rev (sort_key (\<lambda>r. d_id (fst r))
           (filter (\<lambda>r. type_condition ty r \<and> search_condition p r) (join_companies s))))"
    by (simp only: get_documents_def q option.case parse snd_conv listed.simps)
  have "l \<in> set (listed (snd (get_documents s ty (Some q)))) \<longleftrightarrow>
     (\<exists>r\<in>set (join_companies s). l = with_items s r \<and> type_condition ty r \<and>
        search_condition p r)"
    unfolding rows by auto
  also have "\<dots> \<longleftrightarrow>
     (\<exists>d\<in>set (documents s). \<exists>c\<in>set (companies s).
        l = with_items s (d, c) \<and> d_company_id d = Some (c_id c) \<and>
        (ty = None \<or> ty = Some [] \<or> d_type d = ty) \<and>
        (contains_ci q (c_name c) \<or> contains_ci q (cast_text (d_folio d)) \<or>
         contains_ci q (d_reference d)))"
    unfolding cond join_companies_iff type_condition_iff Bex_def
    by (simp only: split_paired_Ex fst_conv snd_conv) blast
  finally show ?thesis .
qed

theorem search_filter_witness:
  "with_items
     (run example_rules example_db
        [Create (blank_request\<lparr>rq_type := Some ''INV'', rq_company_id := Some 1\<rparr>),
         Create (blank_request\<lparr>rq_type := Some ''COT'', rq_company_id := Some 1\<rparr>)])
     (hd (documents (run example_rules example_db
        [Create (blank_request\<lparr>rq_type := Some ''INV'', rq_company_id := Some 1\<rparr>),
         Create (blank_request\<lparr>rq_type := Some ''COT'', rq_company_id := Some 1\<rparr>)])),
      hd (companies example_db))
   \<in> set (listed (snd (get_documents
       (run example_rules example_db
        [Create (blank_request\<lparr>rq_type := Some ''INV'', rq_company_id := Some 1\<rparr>),
         Create (blank_request\<lparr>rq_type := Some ''COT'', rq_company_id := Some 1\<rparr>)])
       (Some ''INV'') (Some ''aCM'')))) \<and>
   map (\<lambda>l. d_id (l_document l)) (listed (snd (get_documents
       (run example_rules example_db
        [Create (blank_request\<lparr>rq_type := Some ''INV'', rq_company_id := Some 1\<rparr>),
         Create (blank_request\<lparr>rq_type := Some ''COT'', rq_company_id := Some 1\<rparr>)])
       (Some ''INV'') (Some ''aCM'')))) = [1]"
proof -
  let ?s = "run example_rules example_db
        [Create (blank_request\<lparr>rq_type := Some ''INV'', rq_company_id := Some 1\<rparr>),
         Create (blank_request\<lparr>rq_type := Some ''COT'', rq_company_id := Some 1\<rparr>)]"
  let ?d = "hd (documents ?s)"
  let ?c = "hd (companies example_db)"
  have q: "''aCM'' \<noteq> []" "list_all (\<lambda>c. \<not> wildcard c) ''aCM''"
    by (simp_all add: wildcard_def)
  have d: "?d \<in> set (documents ?s)"
    by code_simp
  have c: "?c \<in> set (companies ?s)"
    by code_simp
  have j: "d_company_id ?d = Some (c_id ?c)"
    by code_simp
  have t: "d_type ?d = Some ''INV''"
    by code_simp
  have n: "contains_ci ''aCM'' (c_name ?c)"
    by code_simp
  have "with_items ?s (?d, ?c) \<in> set (listed (snd (get_documents ?s (Some ''INV'') (Some ''aCM''))))"
    unfolding search_filter [OF q] using d c j t n by blast
  moreover have "map (\<lambda>l. d_id (l_document l))
      (listed (snd (get_documents ?s (Some ''INV'') (Some ''aCM'')))) = [1]"
    by code_simp
  ultimately show ?thesis by blast
qed

text \<open>
  Claim C8 as stated fails for a term with a pattern character: the term \<^verbatim>\<open>_\<close> lists
  both documents of the store, though it is contained in none of company name, folio
  and reference of either.
\<close>

theorem search_wildcard_counterexample:
  "map (\<lambda>l. (d_id (l_document l), c_name (l_company l), cast_text (d_folio (l_document l)),
               d_reference (l_document l)))
     (listed (snd (get_documents
       (run example_rules example_db
        [Create (blank_request\<lparr>rq_type := Some ''INV'', rq_company_id := Some 1\<rparr>),
         Create (blank_request\<lparr>rq_type := Some ''COT'', rq_company_id := Some 1\<rparr>)])
       None (Some ''_''))))
     = [(2, Some ''Acme'', Some ''6060'', Some []), (1, Some ''Acme'', Some ''6060'', Some [])] \<and>
   \<not> contains_ci ''_'' (Some ''Acme'') \<and> \<not> contains_ci ''_'' (Some ''6060'') \<and>
   \<not> contains_ci ''_'' (Some [])"
proof -
  have "\<not> contains_ci ''_'' (Some ''Acme'')" "\<not> contains_ci ''_'' (Some ''6060'')"
    "\<not> contains_ci ''_'' (Some [])"
    by code_simp+
  moreover have "map (\<lambda>l. (d_id (l_document l), c_name (l_company l),
               cast_text (d_folio (l_document l)), d_reference (l_document l)))
     (listed (snd (get_documents
       (run example_rules example_db
        [Create (blank_request\<lparr>rq_type := Some ''INV'', rq_company_id := Some 1\<rparr>),
         Create (blank_request\<lparr>rq_type := Some ''COT'', rq_company_id := Some 1\<rparr>)])
       None (Some ''_''))))
     = [(2, Some ''Acme'', Some ''6060'', Some []), (1, Some ''Acme'', Some ''6060'', Some [])]"
    by code_simp
  ultimately show ?thesis by simp
qed

end
